theory Spec2Isabelle
  imports Complex_Main
begin

section \<open>Numerical containers of the script\<close>

text \<open>
  The script \<^verbatim>\<open>main.py\<close> works on numpy vectors and scipy sparse matrices of
  64-bit floats. Vectors are modelled as lists of reals and matrices as lists of rows;
  arithmetic is exact (rounding is not modelled). Every exception the script can raise
  in the modelled part is a value of \<open>error\<close>.
\<close>

type_synonym vec = "real list"
type_synonym mat = "real list list"

datatype error = ZeroDivisionError | ValueError | RuntimeError | NameError

definition bind_err :: "'e + 'a \<Rightarrow> ('a \<Rightarrow> 'e + 'b) \<Rightarrow> 'e + 'b" where
  "bind_err m f = (case m of Inl e \<Rightarrow> Inl e | Inr x \<Rightarrow> f x)"

subsection \<open>Python slices\<close>

text \<open>
  A slice \<^verbatim>\<open>a[start:stop:step]\<close> over a sequence of length \<open>n\<close> with a positive step:
  a missing bound is \<open>None\<close>, a negative bound counts from the end, and both bounds are
  clipped to \<open>0..n\<close>. A step of zero raises \<^verbatim>\<open>ValueError\<close>.
\<close>

definition slice_bound :: "nat \<Rightarrow> int \<Rightarrow> nat" where
  "slice_bound n b = (if b < 0 then nat (max (b + int n) 0) else min (nat b) n)"

definition slice_start :: "nat \<Rightarrow> int option \<Rightarrow> nat" where
  "slice_start n start = (case start of None \<Rightarrow> 0 | Some b \<Rightarrow> slice_bound n b)"

definition slice_stop :: "nat \<Rightarrow> int option \<Rightarrow> nat" where
  "slice_stop n stop = (case stop of None \<Rightarrow> n | Some b \<Rightarrow> slice_bound n b)"

definition in_slice :: "nat \<Rightarrow> int option \<Rightarrow> int option \<Rightarrow> nat \<Rightarrow> nat \<Rightarrow> bool" where
  "in_slice n start stop step i =
     (slice_start n start \<le> i \<and> i < slice_stop n stop \<and> (i - slice_start n start) mod step = 0)"

text \<open>\<^verbatim>\<open>a[start:stop:step] = v\<close> for a scalar \<open>v\<close>.\<close>

definition slice_fill :: "'a list \<Rightarrow> int option \<Rightarrow> int option \<Rightarrow> nat \<Rightarrow> 'a \<Rightarrow> error + 'a list" where
  "slice_fill a start stop step v =
     (if step = 0 then Inl ValueError
      else Inr (map (\<lambda>i. if in_slice (length a) start stop step i then v else a ! i)
                  [0..<length a]))"

subsection \<open>Vectors and matrices\<close>

text \<open>\<^verbatim>\<open>A @ x\<close>: each entry is the dot product of a row with \<open>x\<close>.\<close>

definition dot :: "vec \<Rightarrow> vec \<Rightarrow> real" where
  "dot r x = sum_list (map2 (*) r x)"

definition matvec :: "mat \<Rightarrow> vec \<Rightarrow> vec" where
  "matvec A x = map (\<lambda>r. dot r x) A"

text \<open>\<^verbatim>\<open>sparse.diags(d, 0)\<close>: the square matrix with \<open>d\<close> on the main diagonal.\<close>

definition diags :: "vec \<Rightarrow> mat" where
  "diags d = map (\<lambda>i. map (\<lambda>j. if i = j then d ! i else 0) [0..<length d]) [0..<length d]"

text \<open>\<^verbatim>\<open>sparse.eye(n)\<close>, scalar multiples, sums and differences.\<close>

definition eye :: "nat \<Rightarrow> mat" where
  "eye n = map (\<lambda>i. map (\<lambda>j. if i = j then 1 else 0) [0..<n]) [0..<n]"

definition vec_scale :: "real \<Rightarrow> vec \<Rightarrow> vec" where
  "vec_scale c x = map ((*) c) x"

definition vec_add :: "vec \<Rightarrow> vec \<Rightarrow> vec" where
  "vec_add x y = map2 (+) x y"

definition vec_sub :: "vec \<Rightarrow> vec \<Rightarrow> vec" where
  "vec_sub x y = map2 (-) x y"

definition mat_scale :: "real \<Rightarrow> mat \<Rightarrow> mat" where
  "mat_scale c A = map (vec_scale c) A"

definition mat_add :: "mat \<Rightarrow> mat \<Rightarrow> mat" where
  "mat_add A B = map2 vec_add A B"

definition mat_sub :: "mat \<Rightarrow> mat \<Rightarrow> mat" where
  "mat_sub A B = map2 vec_sub A B"

text \<open>
  numpy and scipy raise \<^verbatim>\<open>ValueError\<close> when the shapes of the operands do not fit. The
  model checks the shapes of the operands of a statement before it evaluates it.
\<close>

definition is_square :: "nat \<Rightarrow> mat \<Rightarrow> bool" where
  "is_square n A = (length A = n \<and> list_all (\<lambda>r. length r = n) A)"

section \<open>The elimination mask\<close>

text \<open>
  Lines 66 to 71 of \<^verbatim>\<open>main.py\<close>:
  \<^verbatim>\<open>
  psiElim = np.ones((nx * ny,))
  psiElim[0:ny] = 0
  psiElim[-ny:] = 0
  psiElim[ny::ny] = 0
  psiElim[ny - 1::ny] = 0
  psiElim = sparse.csc_matrix(sparse.diags(psiElim, 0))
  \<close>
\<close>

definition psiElim_entries :: "nat \<Rightarrow> nat \<Rightarrow> error + vec" where
  "psiElim_entries ny nx =
     bind_err (slice_fill (replicate (nx * ny) 1) (Some 0) (Some (int ny)) 1 0) (\<lambda>p1.
     bind_err (slice_fill p1 (Some (- int ny)) None 1 0) (\<lambda>p2.
     bind_err (slice_fill p2 (Some (int ny)) None ny 0) (\<lambda>p3.
     slice_fill p3 (Some (int ny - 1)) None ny 0)))"

definition mk_psiElim :: "nat \<Rightarrow> nat \<Rightarrow> error + mat" where
  "mk_psiElim ny nx = bind_err (psiElim_entries ny nx) (\<lambda>d. Inr (diags d))"

text \<open>
  The boundary indices as the specification names them: the first \<open>ny\<close> indices, the last
  \<open>ny\<close> indices, and every index congruent to \<open>0\<close> or \<open>ny - 1\<close> modulo \<open>ny\<close>.
\<close>

definition boundary_index :: "nat \<Rightarrow> nat \<Rightarrow> nat \<Rightarrow> bool" where
  "boundary_index ny nx i =
     (i < ny \<or> nx * ny - ny \<le> i \<or> i mod ny = 0 \<or> i mod ny = ny - 1)"

text \<open>
  The same indices read on the grid: in column-major layout index \<open>i\<close> is row \<open>i mod ny\<close>
  of column \<open>i div ny\<close>, and the edges are the first and last row and column.
\<close>

definition grid_edge :: "nat \<Rightarrow> nat \<Rightarrow> nat \<Rightarrow> bool" where
  "grid_edge ny nx i =
     (i div ny = 0 \<or> i div ny = nx - 1 \<or> i mod ny = 0 \<or> i mod ny = ny - 1)"

section \<open>Configuration\<close>

text \<open>
  Lines 14 to 19 of \<^verbatim>\<open>main.py\<close> fill the configuration module:
  \<^verbatim>\<open>
  config.dt = 0.01
  config.nt = 3000
  config.ny = 20
  config.nx = 40
  config.dy = 1 / (config.ny - 1)
  config.dx = 2 / (config.ny - 1)
  \<close>
  The literals are the parameters of \<open>mk_config\<close>; the division raises
  \<^verbatim>\<open>ZeroDivisionError\<close> for \<open>ny = 1\<close>.
\<close>

record config =
  config_dt :: real
  config_nt :: nat
  config_ny :: nat
  config_nx :: nat
  config_dy :: real
  config_dx :: real

definition py_div :: "real \<Rightarrow> real \<Rightarrow> error + real" where
  "py_div a b = (if b = 0 then Inl ZeroDivisionError else Inr (a / b))"

definition mk_config :: "real \<Rightarrow> nat \<Rightarrow> nat \<Rightarrow> nat \<Rightarrow> error + config" where
  "mk_config dt nt ny nx =
     bind_err (py_div 1 (real ny - 1)) (\<lambda>dy.
     bind_err (py_div 2 (real ny - 1)) (\<lambda>dx.
     Inr \<lparr>config_dt = dt, config_nt = nt, config_ny = ny, config_nx = nx,
          config_dy = dy, config_dx = dx\<rparr>))"

section \<open>Layout converter\<close>

text \<open>
  Modelled from the spec: the module \<^verbatim>\<open>discretizationUtils\<close> with \<^verbatim>\<open>fieldToVec\<close> and
  \<^verbatim>\<open>vecToField\<close> (the specification's \<^verbatim>\<open>to_vector\<close> and \<^verbatim>\<open>to_grid\<close>) is not part of
  the sources. A grid field is a list of \<open>ny\<close> rows of \<open>nx\<close> entries; the vector form is
  column-major, the row index varying fastest, so entry \<open>(i, j)\<close> of the grid is entry
  \<open>j * ny + i\<close> of the vector. A vector of the wrong size is a contract violation.
\<close>

definition is_grid :: "nat \<Rightarrow> nat \<Rightarrow> 'a list list \<Rightarrow> bool" where
  "is_grid ny nx g = (length g = ny \<and> list_all (\<lambda>r. length r = nx) g)"

definition fieldToVec :: "'a list list \<Rightarrow> 'a list" where
  "fieldToVec g =
     (let ny = length g; nx = (if g = [] then 0 else length (hd g))
      in map (\<lambda>k. g ! (k mod ny) ! (k div ny)) [0..<nx * ny])"

definition vecToField :: "'a list \<Rightarrow> nat \<Rightarrow> nat \<Rightarrow> error + 'a list list" where
  "vecToField v ny nx =
     (if length v \<noteq> nx * ny then Inl ValueError
      else Inr (map (\<lambda>i. map (\<lambda>j. v ! (j * ny + i)) [0..<nx]) [0..<ny]))"

section \<open>Initial conditions\<close>

text \<open>
  Lines 49 to 53 of \<^verbatim>\<open>main.py\<close>:
  \<^verbatim>\<open>
  startT = np.expand_dims(np.linspace(Tbottom, Ttop, ny), 1).repeat(nx, axis=1)
  startT[2:3, int(nx / 2 - 1):int(nx / 2 + 1)] = 0.5
  startT = grid.fieldToVec(startT)
  startPsi = np.expand_dims(np.zeros(ny), 1).repeat(nx, axis=1)
  startPsi = grid.fieldToVec(startPsi)
  \<close>
\<close>

definition linspace :: "real \<Rightarrow> real \<Rightarrow> nat \<Rightarrow> vec" where
  "linspace a b num =
     (if num = 1 then [a]
      else map (\<lambda>i. a + real i * ((b - a) / real (num - 1))) [0..<num])"

definition zeros :: "nat \<Rightarrow> vec" where
  "zeros n = replicate n 0"

text \<open>\<^verbatim>\<open>np.expand_dims(v, 1).repeat(nx, axis=1)\<close>: row \<open>i\<close> holds \<open>nx\<close> copies of \<open>v[i]\<close>.\<close>

definition expand_repeat :: "vec \<Rightarrow> nat \<Rightarrow> real list list" where
  "expand_repeat v nx = map (\<lambda>a. replicate nx a) v"

text \<open>\<^verbatim>\<open>int(x)\<close> on a float truncates towards zero.\<close>

definition py_int :: "real \<Rightarrow> int" where
  "py_int x = (if 0 \<le> x then \<lfloor>x\<rfloor> else \<lceil>x\<rceil>)"

text \<open>\<^verbatim>\<open>g[r0:r1, c0:c1] = v\<close> on a two-dimensional array.\<close>

definition slice_fill2 ::
  "'a list list \<Rightarrow> int option \<Rightarrow> int option \<Rightarrow> int option \<Rightarrow> int option \<Rightarrow> 'a \<Rightarrow> 'a list list" where
  "slice_fill2 g r0 r1 c0 c1 v =
     map (\<lambda>i. if in_slice (length g) r0 r1 1 i
              then map (\<lambda>j. if in_slice (length (g ! i)) c0 c1 1 j then v else g ! i ! j)
                     [0..<length (g ! i)]
              else g ! i)
       [0..<length g]"

definition linear_profile :: "real \<Rightarrow> real \<Rightarrow> nat \<Rightarrow> nat \<Rightarrow> real list list" where
  "linear_profile Tb Tt ny nx = expand_repeat (linspace Tb Tt ny) nx"

definition startT_field :: "real \<Rightarrow> real \<Rightarrow> nat \<Rightarrow> nat \<Rightarrow> real list list" where
  "startT_field Tb Tt ny nx =
     slice_fill2 (linear_profile Tb Tt ny nx) (Some 2) (Some 3)
       (Some (py_int (real nx / 2 - 1))) (Some (py_int (real nx / 2 + 1))) (1 / 2)"

definition startT :: "real \<Rightarrow> real \<Rightarrow> nat \<Rightarrow> nat \<Rightarrow> vec" where
  "startT Tb Tt ny nx = fieldToVec (startT_field Tb Tt ny nx)"

definition startPsi :: "nat \<Rightarrow> nat \<Rightarrow> vec" where
  "startPsi ny nx = fieldToVec (expand_repeat (zeros ny) nx)"

section \<open>Operators and external solvers\<close>

text \<open>
  The modules \<^verbatim>\<open>operators\<close> and \<^verbatim>\<open>matrices\<close> of the repository and scipy's sparse
  solvers are not part of the sources. The script only passes their results on, so they
  are parameters of the model: \<open>build_operators\<close> stands for lines 56 to 61 (the calls
  \<^verbatim>\<open>op.dyOp()\<close> to \<^verbatim>\<open>op.dyOpTemp(bcDirArray=tempDirichlet)\<close>, which read the configuration
  module), \<open>constructC\<close> for \<^verbatim>\<open>matrices.constructC\<close>, \<open>factorized\<close> for
  \<^verbatim>\<open>sparse.linalg.factorized\<close> (it returns a solve function or raises) and \<open>spsolve\<close> for
  \<^verbatim>\<open>sparse.linalg.spsolve\<close>.
\<close>

record operators =
  dyOpPsi :: mat
  dxOpPsi :: mat
  dlOpPsi :: mat
  dlOpTemp :: mat
  rhsDlOpTemp :: vec
  dxOpTemp :: mat
  rhsDxOpTemp :: vec
  dyOpTemp :: mat
  rhsDyOpTemp :: vec

record extern =
  build_operators :: "config \<Rightarrow> vec \<Rightarrow> vec \<Rightarrow> operators"
  constructC :: "operators \<Rightarrow> vec \<Rightarrow> real \<Rightarrow> mat \<times> vec"
  factorized :: "mat \<Rightarrow> error + (vec \<Rightarrow> error + vec)"
  spsolve :: "mat \<Rightarrow> vec \<Rightarrow> error + vec"

section \<open>The script's state\<close>

text \<open>
  The values the literals of lines 14 to 36 set, and the global variables the time loop
  reads and writes. The locals \<^verbatim>\<open>dt\<close>, \<^verbatim>\<open>nt\<close>, \<^verbatim>\<open>ny\<close>, \<^verbatim>\<open>nx\<close>, \<^verbatim>\<open>dy\<close>, \<^verbatim>\<open>dx\<close> are copies
  of the configuration taken once at lines 20 to 25 and are read from \<open>cfg\<close>.
  \<^verbatim>\<open>factor1\<close> is bound only when \<^verbatim>\<open>useSuperLUFactorizationEq1\<close> holds.
\<close>

record settings =
  set_dt :: real
  set_nt :: nat
  set_ny :: nat
  set_nx :: nat
  set_useSuperLUFactorizationEq1 :: bool
  set_useSuperLUFactorizationEq2 :: bool
  set_sqrtRa :: real
  set_Tbottom :: real
  set_Ttop :: real

definition main_settings :: settings where
  "main_settings =
     \<lparr>set_dt = 1 / 100, set_nt = 3000, set_ny = 20, set_nx = 40,
      set_useSuperLUFactorizationEq1 = True, set_useSuperLUFactorizationEq2 = True,
      set_sqrtRa = 7, set_Tbottom = 1, set_Ttop = 0\<rparr>"

record globals =
  cfg :: config
  useSuperLUFactorizationEq1 :: bool
  useSuperLUFactorizationEq2 :: bool
  sqrtRa :: real
  Tbottom :: real
  Ttop :: real
  ops :: operators
  psiElim :: mat
  factor1 :: "(vec \<Rightarrow> error + vec) option"
  Tnplus1 :: vec
  Psinplus1 :: vec

text \<open>Lines 14 to 95: everything before the time loop (plotting left out).\<close>

definition prepare :: "extern \<Rightarrow> settings \<Rightarrow> error + globals" where
  "prepare ext st =
     bind_err (mk_config (set_dt st) (set_nt st) (set_ny st) (set_nx st)) (\<lambda>c.
     let tempDirichlet = [set_Tbottom st, set_Ttop st];
         tempNeumann = [0, 0];
         T0 = startT (set_Tbottom st) (set_Ttop st) (config_ny c) (config_nx c);
         Psi0 = startPsi (config_ny c) (config_nx c);
         os = build_operators ext c tempDirichlet tempNeumann
     in
     bind_err (mk_psiElim (config_ny c) (config_nx c)) (\<lambda>E.
     bind_err (if set_useSuperLUFactorizationEq1 st
               then bind_err (factorized ext (dlOpPsi os)) (\<lambda>f. Inr (Some f))
               else Inr None) (\<lambda>f1.
     Inr \<lparr>cfg = c,
          useSuperLUFactorizationEq1 = set_useSuperLUFactorizationEq1 st,
          useSuperLUFactorizationEq2 = set_useSuperLUFactorizationEq2 st,
          sqrtRa = set_sqrtRa st, Tbottom = set_Tbottom st, Ttop = set_Ttop st,
          ops = os, psiElim = E, factor1 = f1, Tnplus1 = T0, Psinplus1 = Psi0\<rparr>)))"

section \<open>One time step\<close>

text \<open>
  Lines 189 to 194, the temperature solve:
  \<^verbatim>\<open>
  if (useSuperLUFactorizationEq2):
      factor2 = sparse.linalg.factorized(sparse.csc_matrix(sparse.eye(nx * ny) + (dt / 2) * C))
      Tnplus1 = factor2(dt * rhsC + (sparse.eye(nx * ny) - (dt / 2) * C) @ Tn)
  else:
      Tnplus1 = sparse.linalg.spsolve(sparse.eye(nx * ny) + (dt / 2) * C,
                                      dt * rhsC + (sparse.eye(nx * ny) - (dt / 2) * C) @ Tn)
  \<close>
\<close>

definition solve_T :: "extern \<Rightarrow> globals \<Rightarrow> mat \<Rightarrow> vec \<Rightarrow> vec \<Rightarrow> error + vec" where
  "solve_T ext g C rhsC Tn =
     (let nx = config_nx (cfg g); ny = config_ny (cfg g); dt = config_dt (cfg g) in
      if \<not> (is_square (nx * ny) C \<and> length rhsC = nx * ny \<and> length Tn = nx * ny)
      then Inl ValueError
      else if useSuperLUFactorizationEq2 g
      then bind_err (factorized ext (mat_add (eye (nx * ny)) (mat_scale (dt / 2) C))) (\<lambda>factor2.
             factor2 (vec_add (vec_scale dt rhsC)
                        (matvec (mat_sub (eye (nx * ny)) (mat_scale (dt / 2) C)) Tn)))
      else spsolve ext (mat_add (eye (nx * ny)) (mat_scale (dt / 2) C))
             (vec_add (vec_scale dt rhsC)
                (matvec (mat_sub (eye (nx * ny)) (mat_scale (dt / 2) C)) Tn)))"

text \<open>\<^verbatim>\<open>x.shape = (nx * ny, 1)\<close> raises unless \<open>x\<close> has \<open>nx * ny\<close> entries.\<close>

definition set_shape :: "nat \<Rightarrow> vec \<Rightarrow> error + vec" where
  "set_shape n x = (if length x = n then Inr x else Inl ValueError)"

text \<open>
  Lines 199 and 200:
  \<^verbatim>\<open>
  Tnplus1[0::ny] = Tbottom
  Tnplus1[ny - 1::ny] = Ttop
  \<close>
\<close>

definition enforce_T :: "globals \<Rightarrow> vec \<Rightarrow> error + vec" where
  "enforce_T g T =
     (let ny = config_ny (cfg g) in
      bind_err (slice_fill T (Some 0) None ny (Tbottom g)) (\<lambda>T1.
      slice_fill T1 (Some (int ny - 1)) None ny (Ttop g)))"

text \<open>
  Lines 203 to 206, the stream-function solve. Unary minus binds tighter than \<^verbatim>\<open>*\<close>, and
  \<^verbatim>\<open>*\<close> and \<^verbatim>\<open>@\<close> associate to the left, so the mask is scaled before it is applied:
  \<^verbatim>\<open>
  if (useSuperLUFactorizationEq1):
      Psinplus1 = factor1(- sqrtRa * psiElim @ (dxOpTemp @ Tnplus1 - rhsDxOpTemp))
  else:
      Psinplus1 = sparse.linalg.spsolve(dlOpPsi, - sqrtRa * psiElim @ (dxOpTemp @ Tnplus1 - rhsDxOpTemp))
  \<close>
\<close>

definition solve_Psi :: "extern \<Rightarrow> globals \<Rightarrow> vec \<Rightarrow> error + vec" where
  "solve_Psi ext g T =
     (let nx = config_nx (cfg g); ny = config_ny (cfg g) in
      if \<not> (is_square (nx * ny) (dxOpTemp (ops g)) \<and> length (rhsDxOpTemp (ops g)) = nx * ny
             \<and> is_square (nx * ny) (psiElim g) \<and> length T = nx * ny)
      then Inl ValueError
      else if useSuperLUFactorizationEq1 g
      then (case factor1 g of
              None \<Rightarrow> Inl NameError
            | Some f \<Rightarrow>
                f (matvec (mat_scale (- sqrtRa g) (psiElim g))
                     (vec_sub (matvec (dxOpTemp (ops g)) T) (rhsDxOpTemp (ops g)))))
      else spsolve ext (dlOpPsi (ops g))
             (matvec (mat_scale (- sqrtRa g) (psiElim g))
                (vec_sub (matvec (dxOpTemp (ops g)) T) (rhsDxOpTemp (ops g)))))"

text \<open>
  Lines 211 to 214:
  \<^verbatim>\<open>
  Psinplus1[0::ny] = 0
  Psinplus1[ny - 1::ny] = 0
  Psinplus1[0:ny] = 0
  Psinplus1[-ny:] = 0
  \<close>
\<close>

definition enforce_Psi :: "globals \<Rightarrow> vec \<Rightarrow> error + vec" where
  "enforce_Psi g P =
     (let ny = config_ny (cfg g) in
      bind_err (slice_fill P (Some 0) None ny 0) (\<lambda>P1.
      bind_err (slice_fill P1 (Some (int ny - 1)) None ny 0) (\<lambda>P2.
      bind_err (slice_fill P2 (Some 0) (Some (int ny)) 1 0) (\<lambda>P3.
      slice_fill P3 (Some (- int ny)) None 1 0))))"

text \<open>
  The body of the loop from line 180 on (the plotting block of lines 109 to 177 is left
  out: it reads the state and does not write it).
\<close>

definition step :: "extern \<Rightarrow> globals \<Rightarrow> error + globals" where
  "step ext g =
     (let Tn = Tnplus1 g; Psin = Psinplus1 g;
          n = config_nx (cfg g) * config_ny (cfg g);
          (C, rhsC) = constructC ext (ops g) Psin (sqrtRa g)
      in
      bind_err (solve_T ext g C rhsC Tn) (\<lambda>T1.
      bind_err (set_shape n T1) (\<lambda>T2.
      bind_err (enforce_T g T2) (\<lambda>T3.
      bind_err (solve_Psi ext g T3) (\<lambda>P1.
      bind_err (set_shape n P1) (\<lambda>P2.
      bind_err (enforce_Psi g P2) (\<lambda>P3.
      Inr (g\<lparr>Tnplus1 := T3, Psinplus1 := P3\<rparr>))))))))"

text \<open>\<^verbatim>\<open>for it in range(nt + 1)\<close>: the loop stops at the first exception.\<close>

fun time_marching :: "extern \<Rightarrow> nat \<Rightarrow> globals \<Rightarrow> error + globals" where
  "time_marching ext 0 g = Inr g"
| "time_marching ext (Suc k) g = bind_err (step ext g) (time_marching ext k)"

definition main :: "extern \<Rightarrow> settings \<Rightarrow> error + globals" where
  "main ext st = bind_err (prepare ext st) (\<lambda>g. time_marching ext (config_nt (cfg g) + 1) g)"

section \<open>Properties named by the specification\<close>

text \<open>
  The Dirichlet values of the temperature on the bottom row (indices \<open>0, ny, 2ny, \<dots>\<close>) and
  the top row (indices \<open>ny - 1, 2ny - 1, \<dots>\<close>), and the zero stream function on the four
  edges.
\<close>

definition T_boundary :: "globals \<Rightarrow> bool" where
  "T_boundary g =
     (let ny = config_ny (cfg g); nx = config_nx (cfg g) in
      length (Tnplus1 g) = nx * ny \<and>
      (\<forall>i < nx * ny. (i mod ny = 0 \<longrightarrow> Tnplus1 g ! i = Tbottom g) \<and>
                     (i mod ny = ny - 1 \<longrightarrow> Tnplus1 g ! i = Ttop g)))"

definition Psi_boundary :: "globals \<Rightarrow> bool" where
  "Psi_boundary g =
     (let ny = config_ny (cfg g); nx = config_nx (cfg g) in
      length (Psinplus1 g) = nx * ny \<and>
      (\<forall>i < nx * ny. boundary_index ny nx i \<longrightarrow> Psinplus1 g ! i = 0))"

text \<open>Two states of the script that differ at most in the two fields of the simulation state.\<close>

definition same_env :: "globals \<Rightarrow> globals \<Rightarrow> bool" where
  "same_env g g' = (g' = g\<lparr>Tnplus1 := Tnplus1 g', Psinplus1 := Psinplus1 g'\<rparr>)"

text \<open>
  What the script relies on from scipy, in exact arithmetic: a solver that returns a vector
  returns a solution of the system it was given, and a singular matrix is reported as an
  error. A matrix is singular when it maps two different vectors to the same vector.
\<close>

definition solver_sound :: "extern \<Rightarrow> bool" where
  "solver_sound ext =
     ((\<forall>A f b x. factorized ext A = Inr f \<and> f b = Inr x \<longrightarrow> matvec A x = b) \<and>
      (\<forall>A b x. spsolve ext A b = Inr x \<longrightarrow> matvec A x = b))"

definition singular :: "mat \<Rightarrow> bool" where
  "singular A =
     (\<exists>x y. length x = length A \<and> length y = length A \<and> x \<noteq> y \<and> matvec A x = matvec A y)"

definition rejects_singular :: "extern \<Rightarrow> bool" where
  "rejects_singular ext =
     (\<forall>A. singular A \<longrightarrow>
        (\<exists>e. factorized ext A = Inl e) \<and> (\<forall>b. \<exists>e. spsolve ext A b = Inl e))"

section \<open>A concrete instance\<close>

text \<open>
  A direct solver for diagonal systems and a small set of operators on a 3 by 3 grid; they
  instantiate the parameters where a theorem is applied to a concrete input.
\<close>

definition diag_entries :: "mat \<Rightarrow> vec" where
  "diag_entries A = map (\<lambda>i. A ! i ! i) [0..<length A]"

definition diag_factorized :: "mat \<Rightarrow> error + (vec \<Rightarrow> error + vec)" where
  "diag_factorized A =
     (if A = diags (diag_entries A) \<and> 0 \<notin> set (diag_entries A)
      then Inr (\<lambda>b. if length b = length A
                    then Inr (map2 (\<lambda>v d. v / d) b (diag_entries A))
                    else Inl ValueError)
      else Inl RuntimeError)"

definition diag_spsolve :: "mat \<Rightarrow> vec \<Rightarrow> error + vec" where
  "diag_spsolve A b = bind_err (diag_factorized A) (\<lambda>f. f b)"

definition demo_operators :: operators where
  "demo_operators =
     \<lparr>dyOpPsi = eye 9, dxOpPsi = eye 9, dlOpPsi = diags (replicate 9 2),
      dlOpTemp = eye 9, rhsDlOpTemp = zeros 9,
      dxOpTemp = eye 9, rhsDxOpTemp = zeros 9,
      dyOpTemp = eye 9, rhsDyOpTemp = zeros 9\<rparr>"

definition demo_extern :: extern where
  "demo_extern =
     \<lparr>build_operators = (\<lambda>c d n. demo_operators),
      constructC = (\<lambda>os psi s. (diags (replicate 9 2), replicate 9 1)),
      factorized = diag_factorized,
      spsolve = diag_spsolve\<rparr>"

definition demo_settings :: settings where
  "demo_settings =
     \<lparr>set_dt = 1, set_nt = 0, set_ny = 3, set_nx = 3,
      set_useSuperLUFactorizationEq1 = True, set_useSuperLUFactorizationEq2 = True,
      set_sqrtRa = 7, set_Tbottom = 1, set_Ttop = 0\<rparr>"

section \<open>Slices and the elimination mask\<close>

lemma mod_shift_zero:
  fixes i :: nat
  assumes "0 < ny" "ny \<le> i"
  shows "((i - ny) mod ny = 0) = (i mod ny = 0)"
  using assms by (simp add: le_mod_geq)

lemma mod_shift_last:
  fixes i :: nat
  assumes "0 < ny" "ny - 1 \<le> i"
  shows "((i - (ny - 1)) mod ny = 0) = (i mod ny = ny - 1)"
proof -
  define r where "r = (i - (ny - 1)) mod ny"
  have r: "r < ny" using assms by (simp add: r_def)
  have "i = (ny - 1) + (i - (ny - 1))" using assms by simp
  then have "i mod ny = ((ny - 1) + (i - (ny - 1))) mod ny" by simp
  also have "\<dots> = ((ny - 1) + r) mod ny" unfolding r_def by (simp add: mod_add_right_eq)
  also have "\<dots> = (if r = 0 then ny - 1 else r - 1)"
    using r assms by (auto simp: le_mod_geq)
  finally have "i mod ny = (if r = 0 then ny - 1 else r - 1)" .
  then show ?thesis using r unfolding r_def [symmetric] by (auto split: if_splits)
qed

lemma in_slice_first:
  "i < n \<Longrightarrow> in_slice n (Some 0) (Some (int ny)) (Suc 0) i = (i < ny)"
  by (auto simp: in_slice_def slice_start_def slice_stop_def slice_bound_def)

lemma in_slice_last:
  "0 < ny \<Longrightarrow> i < n \<Longrightarrow> in_slice n (Some (- int ny)) None (Suc 0) i = (n - ny \<le> i)"
  by (auto simp: in_slice_def slice_start_def slice_stop_def slice_bound_def)

lemma in_slice_bottom:
  assumes "0 < ny" "i < n"
  shows "in_slice n (Some (int ny)) None ny i = (ny \<le> i \<and> i mod ny = 0)"
proof (cases "ny \<le> i")
  case True
  then have "min ny n = ny" using assms by simp
  then show ?thesis using True assms mod_shift_zero [of ny i]
    by (simp add: in_slice_def slice_start_def slice_stop_def slice_bound_def del: dvd_eq_mod_eq_0 mod_eq_0_iff_dvd)
next
  case False
  then show ?thesis using assms
    by (simp add: in_slice_def slice_start_def slice_stop_def slice_bound_def)
qed

lemma in_slice_top:
  assumes "0 < ny" "i < n"
  shows "in_slice n (Some (int ny - 1)) None ny i = (i mod ny = ny - 1)"
proof -
  have b: "slice_bound n (int ny - 1) = min (ny - 1) n"
    using assms by (simp add: slice_bound_def nat_diff_distrib')
  show ?thesis
  proof (cases "ny - 1 \<le> i")
    case True
    then have "min (ny - 1) n = ny - 1" using assms by simp
    then show ?thesis using True assms mod_shift_last [of ny i] b
      by (simp add: in_slice_def slice_start_def slice_stop_def del: dvd_eq_mod_eq_0 mod_eq_0_iff_dvd)
  next
    case False
    then have "i < ny - 1" by simp
    then have "i mod ny = i" by simp
    then show ?thesis using False assms b
      by (simp add: in_slice_def slice_start_def slice_stop_def)
  qed
qed

lemma psiElim_entries_eq:
  assumes "0 < ny"
  shows "psiElim_entries ny nx =
     Inr (map (\<lambda>i. if boundary_index ny nx i then 0 else 1) [0..<nx * ny])"
proof -
  have "map (\<lambda>i. if in_slice (nx * ny) (Some (int ny - 1)) None ny i then 0
            else if in_slice (nx * ny) (Some (int ny)) None ny i then 0
            else if in_slice (nx * ny) (Some (- int ny)) None 1 i then 0
            else if in_slice (nx * ny) (Some 0) (Some (int ny)) 1 i then 0 else (1::real)) [0..<nx * ny]
      = map (\<lambda>i. if boundary_index ny nx i then 0 else 1) [0..<nx * ny]"
  proof (rule map_cong [OF refl])
    fix i assume "i \<in> set [0..<nx * ny]"
    then have "i < nx * ny" by simp
    then show "(if in_slice (nx * ny) (Some (int ny - 1)) None ny i then 0
            else if in_slice (nx * ny) (Some (int ny)) None ny i then 0
            else if in_slice (nx * ny) (Some (- int ny)) None 1 i then 0
            else if in_slice (nx * ny) (Some 0) (Some (int ny)) 1 i then 0 else (1::real))
        = (if boundary_index ny nx i then 0 else 1)"
      using assms
      by (auto simp: in_slice_first in_slice_last in_slice_bottom in_slice_top boundary_index_def)
  qed
  moreover have "psiElim_entries ny nx =
     Inr (map (\<lambda>i. if in_slice (nx * ny) (Some (int ny - 1)) None ny i then 0
            else if in_slice (nx * ny) (Some (int ny)) None ny i then 0
            else if in_slice (nx * ny) (Some (- int ny)) None 1 i then 0
            else if in_slice (nx * ny) (Some 0) (Some (int ny)) 1 i then 0 else (1::real)) [0..<nx * ny])"
    using assms by (simp add: psiElim_entries_def bind_err_def slice_fill_def)
  ultimately show ?thesis by simp
qed

lemma map2_upt:
  assumes "length x = n"
  shows "map2 h (map f [0..<n]) x = map (\<lambda>j. h (f j) (x ! j)) [0..<n]"
  using assms by (intro nth_equalityI) simp_all

lemma sum_list_delta:
  fixes g :: "nat \<Rightarrow> real"
  assumes "i < n"
  shows "sum_list (map (\<lambda>j. (if i = j then c else 0) * g j) [0..<n]) = c * g i"
proof -
  have "sum_list (map (\<lambda>j. (if i = j then c else 0) * g j) [0..<n])
      = (\<Sum>j\<in>{0..<n}. (if i = j then c else 0) * g j)"
    by (simp add: interv_sum_list_conv_sum_set_nat)
  also have "\<dots> = (\<Sum>j\<in>{0..<n}. if j = i then c * g j else 0)"
    by (intro sum.cong) auto
  also have "\<dots> = c * g i" using assms by (simp add: sum.delta)
  finally show ?thesis .
qed

lemma dot_unit_row:
  assumes "length x = n" "i < n"
  shows "dot (map (\<lambda>j. if i = j then c else 0) [0..<n]) x = c * x ! i"
  using assms by (simp add: dot_def map2_upt sum_list_delta)

lemma matvec_diags:
  assumes "length x = length d"
  shows "matvec (diags d) x = map (\<lambda>i. d ! i * x ! i) [0..<length d]"
  using assms by (simp add: matvec_def diags_def dot_unit_row)

lemma boundary_index_grid:
  assumes "0 < ny" "i < nx * ny"
  shows "boundary_index ny nx i = grid_edge ny nx i"
proof -
  have first: "(i < ny) = (i div ny = 0)"
    using assms by (simp add: div_eq_0_iff)
  have "i div ny < nx"
    using assms by (simp add: div_less_iff_less_mult)
  moreover have "nx * ny - ny = (nx - 1) * ny"
    by (simp add: diff_mult_distrib)
  moreover have "((nx - 1) * ny \<le> i) = (nx - 1 \<le> i div ny)"
    using assms by (simp add: less_eq_div_iff_mult_less_eq)
  ultimately have last: "(nx * ny - ny \<le> i) = (i div ny = nx - 1)"
    by auto
  show ?thesis
    unfolding boundary_index_def grid_edge_def first last ..
qed


text \<open>
  C4. For \<open>ny > 0\<close> the mask is built without error, it is the diagonal matrix with 0 on
  the boundary indices (the first \<open>ny\<close>, the last \<open>ny\<close>, and those congruent to \<open>0\<close> or
  \<open>ny - 1\<close> modulo \<open>ny\<close>) and 1 elsewhere, and applied to a vector \<open>x\<close> of length
  \<open>nx * ny\<close> it zeroes the boundary entries and keeps every other entry of \<open>x\<close>. The
  boundary indices are the indices on the four edges of the grid.
\<close>

theorem psiElim_zeroes_boundary:
  assumes "0 < ny" and "length x = nx * ny"
  shows "\<exists>M. mk_psiElim ny nx = Inr M
           \<and> M = diags (map (\<lambda>i. if boundary_index ny nx i then 0 else 1) [0..<nx * ny])
           \<and> matvec M x = map (\<lambda>i. if boundary_index ny nx i then 0 else x ! i) [0..<nx * ny]
           \<and> (\<forall>i < nx * ny. boundary_index ny nx i = grid_edge ny nx i)"
  using assms
  by (simp add: mk_psiElim_def bind_err_def psiElim_entries_eq matvec_diags boundary_index_grid)


theorem psiElim_zeroes_boundary_witness:
  "mk_psiElim 3 3 = Inr (diags [0, 0, 0, 0, 1, 0, 0, 0, 0])
   \<and> matvec (diags [0, 0, 0, 0, 1, 0, 0, 0, 0]) [1, 2, 3, 4, 5, 6, 7, 8, 9] = [0, 0, 0, 0, 5, 0, 0, 0, 0]"
  using psiElim_zeroes_boundary [of 3 "[1, 2, 3, 4, 5, 6, 7, 8, 9]" 3]
  by (simp add: boundary_index_def upt_conv_Cons)

section \<open>Layout converter round trip\<close>

lemma grid_index_less:
  fixes i j :: nat
  assumes "i < ny" "j < nx"
  shows "j * ny + i < nx * ny"
proof -
  have "j * ny + i < j * ny + ny" using assms by simp
  also have "\<dots> = (j + 1) * ny" by simp
  also have "\<dots> \<le> nx * ny" using assms by (intro mult_le_mono1) simp
  finally show ?thesis .
qed

lemma is_grid_row: "is_grid ny nx g \<Longrightarrow> i < ny \<Longrightarrow> length (g ! i) = nx"
  by (simp add: is_grid_def list_all_length)

lemma fieldToVec_grid:
  assumes "is_grid ny nx g"
  shows "fieldToVec g = map (\<lambda>k. g ! (k mod ny) ! (k div ny)) [0..<nx * ny]"
proof (cases "g = []")
  case True
  then show ?thesis using assms by (simp add: fieldToVec_def is_grid_def)
next
  case False
  then have "0 < ny" using assms by (auto simp: is_grid_def)
  then have "length (hd g) = nx"
    using assms False is_grid_row [of ny nx g 0] by (simp add: hd_conv_nth)
  then show ?thesis using assms False by (simp add: fieldToVec_def is_grid_def Let_def)
qed

lemma vecToField_fieldToVec:
  assumes "is_grid ny nx g"
  shows "vecToField (fieldToVec g) ny nx = Inr g"
proof -
  have len: "length g = ny" using assms by (simp add: is_grid_def)
  have "map (\<lambda>i. map (\<lambda>j. fieldToVec g ! (j * ny + i)) [0..<nx]) [0..<ny] = g"
  proof (rule nth_equalityI)
    show "length (map (\<lambda>i. map (\<lambda>j. fieldToVec g ! (j * ny + i)) [0..<nx]) [0..<ny]) = length g"
      using len by simp
  next
    fix i assume "i < length (map (\<lambda>i. map (\<lambda>j. fieldToVec g ! (j * ny + i)) [0..<nx]) [0..<ny])"
    then have i: "i < ny" by simp
    have "map (\<lambda>j. fieldToVec g ! (j * ny + i)) [0..<nx] = g ! i"
    proof (rule nth_equalityI)
      show "length (map (\<lambda>j. fieldToVec g ! (j * ny + i)) [0..<nx]) = length (g ! i)"
        using assms i by (simp add: is_grid_row)
    next
      fix j assume "j < length (map (\<lambda>j. fieldToVec g ! (j * ny + i)) [0..<nx])"
      then have j: "j < nx" by simp
      then show "map (\<lambda>j. fieldToVec g ! (j * ny + i)) [0..<nx] ! j = g ! i ! j"
        using i grid_index_less [OF i j] by (simp add: fieldToVec_grid [OF assms])
    qed
    then show "map (\<lambda>i. map (\<lambda>j. fieldToVec g ! (j * ny + i)) [0..<nx]) [0..<ny] ! i = g ! i"
      using i by simp
  qed
  moreover have "length (fieldToVec g) = nx * ny"
    by (simp add: fieldToVec_grid [OF assms])
  ultimately show ?thesis by (simp add: vecToField_def)
qed

lemma vecToField_is_grid:
  "is_grid ny nx (map (\<lambda>i. map (\<lambda>j. v ! (j * ny + i)) [0..<nx]) [0..<ny])"
  by (simp add: is_grid_def list_all_length)

lemma fieldToVec_vecToField:
  assumes "length v = nx * ny"
  shows "fieldToVec (map (\<lambda>i. map (\<lambda>j. v ! (j * ny + i)) [0..<nx]) [0..<ny]) = v"
proof -
  have "map (\<lambda>k. map (\<lambda>i. map (\<lambda>j. v ! (j * ny + i)) [0..<nx]) [0..<ny] ! (k mod ny) ! (k div ny))
          [0..<nx * ny] = v"
  proof (rule nth_equalityI)
    show "length (map (\<lambda>k. map (\<lambda>i. map (\<lambda>j. v ! (j * ny + i)) [0..<nx]) [0..<ny] ! (k mod ny) ! (k div ny))
          [0..<nx * ny]) = length v"
      using assms by simp
  next
    fix k assume "k < length (map (\<lambda>k. map (\<lambda>i. map (\<lambda>j. v ! (j * ny + i)) [0..<nx]) [0..<ny] ! (k mod ny) ! (k div ny))
          [0..<nx * ny])"
    then have k: "k < nx * ny" by simp
    then have ny: "0 < ny" by (cases ny) simp_all
    have "k mod ny < ny" using ny by simp
    moreover have "k div ny < nx" using k ny by (simp add: div_less_iff_less_mult)
    ultimately show "map (\<lambda>k. map (\<lambda>i. map (\<lambda>j. v ! (j * ny + i)) [0..<nx]) [0..<ny] ! (k mod ny) ! (k div ny))
          [0..<nx * ny] ! k = v ! k"
      using k by simp
  qed
  then show ?thesis
    using fieldToVec_grid [OF vecToField_is_grid [of ny nx v]] by simp
qed

text \<open>
  C9. For all grid sizes \<open>ny\<close>, \<open>nx\<close>: a grid field of \<open>ny\<close> rows and \<open>nx\<close> columns is
  returned exactly by converting it to vector form and back, and a vector of length
  \<open>nx * ny\<close> is returned exactly by converting it to grid form (which succeeds and has
  \<open>ny\<close> rows of \<open>nx\<close> entries) and back.
\<close>

theorem layout_round_trip:
  "(is_grid ny nx g \<longrightarrow> vecToField (fieldToVec g) ny nx = Inr g) \<and>
   (length v = nx * ny \<longrightarrow>
      (\<exists>f. vecToField v ny nx = Inr f \<and> is_grid ny nx f \<and> fieldToVec f = v))"
proof (intro conjI impI)
  assume "is_grid ny nx g"
  then show "vecToField (fieldToVec g) ny nx = Inr g" by (rule vecToField_fieldToVec)
next
  assume "length v = nx * ny"
  then show "\<exists>f. vecToField v ny nx = Inr f \<and> is_grid ny nx f \<and> fieldToVec f = v"
    by (simp add: vecToField_def vecToField_is_grid fieldToVec_vecToField)
qed

theorem layout_round_trip_witness:
  "is_grid 2 3 [[1, 2, 3], [4, 5, 6::nat]] \<and> fieldToVec [[1, 2, 3], [4, 5, 6::nat]] = [1, 4, 2, 5, 3, 6]
   \<and> vecToField [1, 4, 2, 5, 3, 6::nat] 2 3 = Inr [[1, 2, 3], [4, 5, 6]]
   \<and> length [1, 4, 2, 5, 3, 6::nat] = 3 * 2"
  using layout_round_trip [of 2 3 "[[1, 2, 3], [4, 5, 6::nat]]" "[1, 4, 2, 5, 3, 6::nat]"]
  by (simp add: is_grid_def fieldToVec_def vecToField_def upt_conv_Cons)

section \<open>Initial conditions\<close>

lemma length_linspace: "length (linspace a b n) = n"
  by (simp add: linspace_def)

lemma linear_profile_nth:
  "i < ny \<Longrightarrow> linear_profile Tb Tt ny nx ! i = replicate nx (linspace Tb Tt ny ! i)"
  by (simp add: linear_profile_def expand_repeat_def length_linspace)

lemma length_linear_profile: "length (linear_profile Tb Tt ny nx) = ny"
  by (simp add: linear_profile_def expand_repeat_def length_linspace)

lemma is_grid_linear_profile: "is_grid ny nx (linear_profile Tb Tt ny nx)"
  by (simp add: is_grid_def list_all_length length_linear_profile linear_profile_nth)

lemma in_slice_row2: "i < ny \<Longrightarrow> in_slice ny (Some 2) (Some 3) (Suc 0) i = (i = 2)"
  by (auto simp: in_slice_def slice_start_def slice_stop_def slice_bound_def)

lemma py_int_half_minus:
  assumes "2 \<le> nx"
  shows "py_int (real nx / 2 - 1) = int (nx div 2) - 1"
proof -
  have "real nx / 2 - 1 \<ge> 0" using assms by simp
  moreover have "\<lfloor>real nx / 2 - 1\<rfloor> = \<lfloor>real nx / real 2\<rfloor> - 1" by simp
  moreover have "\<lfloor>real nx / real 2\<rfloor> = int (nx div 2)" by (rule floor_divide_of_nat_eq)
  ultimately show ?thesis by (simp add: py_int_def)
qed

lemma py_int_half_plus: "py_int (real nx / 2 + 1) = int (nx div 2) + 1"
proof -
  have "real nx / 2 + 1 \<ge> 0" by simp
  moreover have "\<lfloor>real nx / 2 + 1\<rfloor> = \<lfloor>real nx / real 2\<rfloor> + 1" by simp
  moreover have "\<lfloor>real nx / real 2\<rfloor> = int (nx div 2)" by (rule floor_divide_of_nat_eq)
  ultimately show ?thesis by (simp add: py_int_def)
qed

lemma in_slice_middle:
  assumes "2 \<le> nx" "j < nx"
  shows "in_slice nx (Some (py_int (real nx / 2 - 1))) (Some (py_int (real nx / 2 + 1))) (Suc 0) j
           = (j = nx div 2 - 1 \<or> j = nx div 2)"
proof -
  have "1 \<le> nx div 2" using assms by simp
  then have lo: "slice_bound nx (int (nx div 2) - 1) = nx div 2 - 1"
    using assms by (simp add: slice_bound_def nat_diff_distrib')
  have hi: "slice_bound nx (int (nx div 2) + 1) = nx div 2 + 1"
    using assms by (simp add: slice_bound_def nat_add_distrib)
  show ?thesis
    using \<open>1 \<le> nx div 2\<close>
    by (auto simp: in_slice_def slice_start_def slice_stop_def lo hi
        py_int_half_minus [OF assms(1)] py_int_half_plus)
qed

lemma startT_field_row:
  assumes "i < ny"
  shows "startT_field Tb Tt ny nx ! i =
           (if in_slice ny (Some 2) (Some 3) (Suc 0) i
            then map (\<lambda>j. if in_slice nx (Some (py_int (real nx / 2 - 1)))
                               (Some (py_int (real nx / 2 + 1))) (Suc 0) j
                          then 1 / 2 else linspace Tb Tt ny ! i) [0..<nx]
            else replicate nx (linspace Tb Tt ny ! i))"
proof -
  have "startT_field Tb Tt ny nx ! i =
          (if in_slice ny (Some 2) (Some 3) (Suc 0) i
            then map (\<lambda>j. if in_slice nx (Some (py_int (real nx / 2 - 1)))
                               (Some (py_int (real nx / 2 + 1))) (Suc 0) j
                          then 1 / 2 else replicate nx (linspace Tb Tt ny ! i) ! j) [0..<nx]
            else replicate nx (linspace Tb Tt ny ! i))"
    using assms
    by (simp add: startT_field_def slice_fill2_def length_linear_profile linear_profile_nth)
  moreover have "map (\<lambda>j. if in_slice nx (Some (py_int (real nx / 2 - 1)))
                               (Some (py_int (real nx / 2 + 1))) (Suc 0) j
                          then 1 / 2 else replicate nx (linspace Tb Tt ny ! i) ! j) [0..<nx]
               = map (\<lambda>j. if in_slice nx (Some (py_int (real nx / 2 - 1)))
                               (Some (py_int (real nx / 2 + 1))) (Suc 0) j
                          then 1 / 2 else linspace Tb Tt ny ! i) [0..<nx]"
    by (rule map_cong [OF refl]) simp
  ultimately show ?thesis by simp
qed

lemma length_startT_field: "length (startT_field Tb Tt ny nx) = ny"
  by (simp add: startT_field_def slice_fill2_def length_linear_profile)

lemma startT_field_nth:
  assumes "2 \<le> nx" "i < ny" "j < nx"
  shows "startT_field Tb Tt ny nx ! i ! j =
           (if i = 2 \<and> (j = nx div 2 - 1 \<or> j = nx div 2) then 1 / 2
            else linspace Tb Tt ny ! i)"
proof (cases "i = 2")
  case True
  have "in_slice ny (Some 2) (Some 3) (Suc 0) i"
    using in_slice_row2 [OF assms(2)] True by blast
  then have "startT_field Tb Tt ny nx ! i =
      map (\<lambda>j. if in_slice nx (Some (py_int (real nx / 2 - 1)))
                               (Some (py_int (real nx / 2 + 1))) (Suc 0) j
                          then 1 / 2 else linspace Tb Tt ny ! i) [0..<nx]"
    using startT_field_row [OF assms(2), of Tb Tt nx] by (simp only: if_True)
  then have "startT_field Tb Tt ny nx ! i ! j =
      (if in_slice nx (Some (py_int (real nx / 2 - 1)))
                               (Some (py_int (real nx / 2 + 1))) (Suc 0) j
                          then 1 / 2 else linspace Tb Tt ny ! i)"
    using assms(3) by (simp only: nth_map_upt add_0 minus_nat.diff_0)
  then show ?thesis
    unfolding in_slice_middle [OF assms(1,3)] using True by (simp only: simp_thms)
next
  case False
  have "\<not> in_slice ny (Some 2) (Some 3) (Suc 0) i"
    using in_slice_row2 [OF assms(2)] False by blast
  then have "startT_field Tb Tt ny nx ! i = replicate nx (linspace Tb Tt ny ! i)"
    using startT_field_row [OF assms(2), of Tb Tt nx] by (simp only: if_False)
  then have "startT_field Tb Tt ny nx ! i ! j = linspace Tb Tt ny ! i"
    using assms(3) by (simp only: nth_replicate)
  then show ?thesis using False by (simp only: simp_thms if_False)
qed

lemma length_startT_field_row:
  assumes "i < ny"
  shows "length (startT_field Tb Tt ny nx ! i) = nx"
proof (cases "in_slice ny (Some 2) (Some 3) (Suc 0) i")
  case True
  then have "startT_field Tb Tt ny nx ! i =
      map (\<lambda>j. if in_slice nx (Some (py_int (real nx / 2 - 1)))
                               (Some (py_int (real nx / 2 + 1))) (Suc 0) j
                          then 1 / 2 else linspace Tb Tt ny ! i) [0..<nx]"
    using startT_field_row [OF assms, of Tb Tt nx] by (simp only: if_True)
  then show ?thesis by (simp only: length_map length_upt minus_nat.diff_0)
next
  case False
  then have "startT_field Tb Tt ny nx ! i = replicate nx (linspace Tb Tt ny ! i)"
    using startT_field_row [OF assms, of Tb Tt nx] by (simp only: if_False)
  then show ?thesis by (simp only: length_replicate)
qed

lemma is_grid_startT_field: "is_grid ny nx (startT_field Tb Tt ny nx)"
  by (simp add: is_grid_def list_all_length length_startT_field length_startT_field_row)

lemma fieldToVec_inject:
  assumes "is_grid ny nx a" "is_grid ny nx b" "fieldToVec a = fieldToVec b"
  shows "a = b"
proof -
  have "Inr a = vecToField (fieldToVec a) ny nx"
    using assms(1) by (rule vecToField_fieldToVec [symmetric])
  also have "\<dots> = vecToField (fieldToVec b) ny nx"
    by (simp only: assms(3))
  also have "\<dots> = Inr b"
    using assms(2) by (rule vecToField_fieldToVec)
  finally show ?thesis by (simp only: sum.inject)
qed

lemma startPsi_zero: "startPsi ny nx = replicate (nx * ny) 0"
proof -
  have g: "is_grid ny nx (expand_repeat (zeros ny) nx)"
    by (simp add: is_grid_def list_all_length expand_repeat_def zeros_def)
  show ?thesis
    unfolding startPsi_def fieldToVec_grid [OF g]
  proof (rule nth_equalityI)
    show "length (map (\<lambda>k. expand_repeat (zeros ny) nx ! (k mod ny) ! (k div ny)) [0..<nx * ny])
            = length (replicate (nx * ny) (0::real))" by simp
  next
    fix k assume "k < length (map (\<lambda>k. expand_repeat (zeros ny) nx ! (k mod ny) ! (k div ny)) [0..<nx * ny])"
    then have k: "k < nx * ny" by simp
    then have ny: "0 < ny" by (cases ny) simp_all
    have "k mod ny < ny" using ny by simp
    moreover have "k div ny < nx" using k ny by (simp add: div_less_iff_less_mult)
    ultimately show "map (\<lambda>k. expand_repeat (zeros ny) nx ! (k mod ny) ! (k div ny)) [0..<nx * ny] ! k
                       = replicate (nx * ny) (0::real) ! k"
      using k by (simp add: expand_repeat_def zeros_def)
  qed
qed

text \<open>
  C10. For a grid with at least three rows and two columns whose linear profile is not
  already \<open>1/2\<close> on row 2 (the configured run: \<open>Tbottom = 1\<close>, \<open>Ttop = 0\<close>, \<open>ny = 20\<close>,
  \<open>nx = 40\<close>), the initial temperature field is the linear profile with the entries of row
  2 in columns \<open>nx div 2 - 1\<close> and \<open>nx div 2\<close> overwritten with \<open>1/2\<close>; vectorised, it
  differs from the vectorised linear profile. The initial stream function is the zero
  vector.
\<close>

theorem initial_temperature_perturbed:
  assumes "3 \<le> ny" and "2 \<le> nx" and "linspace Tb Tt ny ! 2 \<noteq> 1 / 2"
  shows "(\<forall>i < ny. \<forall>j < nx.
            startT_field Tb Tt ny nx ! i ! j =
              (if i = 2 \<and> (j = nx div 2 - 1 \<or> j = nx div 2) then 1 / 2
               else linspace Tb Tt ny ! i))
         \<and> startT Tb Tt ny nx = fieldToVec (startT_field Tb Tt ny nx)
         \<and> startT Tb Tt ny nx \<noteq> fieldToVec (linear_profile Tb Tt ny nx)
         \<and> startPsi ny nx = replicate (nx * ny) 0"
proof (intro conjI allI impI)
  fix i j assume "i < ny" "j < nx"
  then show "startT_field Tb Tt ny nx ! i ! j =
              (if i = 2 \<and> (j = nx div 2 - 1 \<or> j = nx div 2) then 1 / 2
               else linspace Tb Tt ny ! i)"
    by (rule startT_field_nth [OF assms(2)])
next
  show "startT Tb Tt ny nx = fieldToVec (startT_field Tb Tt ny nx)"
    by (simp add: startT_def)
next
  have "2 < ny" "nx div 2 < nx" using assms by simp_all
  then have "startT_field Tb Tt ny nx ! 2 ! (nx div 2) = 1 / 2"
    using startT_field_nth [OF assms(2), of 2 ny "nx div 2" Tb Tt] by simp
  moreover have "linear_profile Tb Tt ny nx ! 2 ! (nx div 2) = linspace Tb Tt ny ! 2"
    using assms by (simp add: linear_profile_nth)
  ultimately have "startT_field Tb Tt ny nx \<noteq> linear_profile Tb Tt ny nx"
    using assms(3) by auto
  then show "startT Tb Tt ny nx \<noteq> fieldToVec (linear_profile Tb Tt ny nx)"
    using fieldToVec_inject [OF is_grid_startT_field is_grid_linear_profile]
    unfolding startT_def by blast
next
  show "startPsi ny nx = replicate (nx * ny) 0" by (rule startPsi_zero)
qed

theorem initial_temperature_perturbed_witness:
  "(3::nat) \<le> 20 \<and> (2::nat) \<le> 40 \<and> linspace 1 0 20 ! 2 = 17 / 19
   \<and> startT_field 1 0 20 40 ! 2 ! 19 = 1 / 2
   \<and> startT_field 1 0 20 40 ! 2 ! 20 = 1 / 2
   \<and> startT_field 1 0 20 40 ! 2 ! 21 = 17 / 19
   \<and> startT 1 0 20 40 \<noteq> fieldToVec (linear_profile 1 0 20 40)
   \<and> startPsi 20 40 = replicate 800 0"
proof -
  have l: "linspace 1 0 20 ! 2 = 17 / 19" by (simp add: linspace_def)
  then have "linspace 1 0 20 ! 2 \<noteq> 1 / 2" by simp
  then have t: "(\<forall>i<20. \<forall>j<40. startT_field 1 0 20 40 ! i ! j =
             (if i = 2 \<and> (j = 40 div 2 - 1 \<or> j = 40 div 2) then 1 / 2 else linspace 1 0 20 ! i))
         \<and> startT 1 0 20 40 = fieldToVec (startT_field 1 0 20 40)
         \<and> startT 1 0 20 40 \<noteq> fieldToVec (linear_profile 1 0 20 40)
         \<and> startPsi 20 40 = replicate (40 * 20) 0"
    by (intro initial_temperature_perturbed) simp_all
  note a = t [THEN conjunct1]
  note b = t [THEN conjunct2, THEN conjunct2, THEN conjunct1]
  note c = t [THEN conjunct2, THEN conjunct2, THEN conjunct2]
  have "startT_field 1 0 20 40 ! 2 ! 19 = 1 / 2" using a [rule_format, of 2 19] by simp
  moreover have "startT_field 1 0 20 40 ! 2 ! 20 = 1 / 2" using a [rule_format, of 2 20] by simp
  moreover have "startT_field 1 0 20 40 ! 2 ! 21 = 17 / 19" using a [rule_format, of 2 21] l by simp
  ultimately show ?thesis using b c l by simp
qed

section \<open>The time loop keeps the environment\<close>

lemma bind_err_Inr:
  "(bind_err m f = Inr y) = (\<exists>x. m = Inr x \<and> f x = Inr y)"
  by (cases m) (simp_all add: bind_err_def)

lemma bind_err_Inl:
  "(bind_err m f = Inl e) = (m = Inl e \<or> (\<exists>x. m = Inr x \<and> f x = Inl e))"
  by (cases m) (simp_all add: bind_err_def)

lemma set_shape_Inr: "(set_shape n x = Inr y) = (length x = n \<and> y = x)"
  by (auto simp: set_shape_def)

lemma step_cases:
  assumes "step ext g = Inr g'"
  obtains C rhsC T1 T3 P1 P3 where
    "constructC ext (ops g) (Psinplus1 g) (sqrtRa g) = (C, rhsC)"
    "solve_T ext g C rhsC (Tnplus1 g) = Inr T1"
    "length T1 = config_nx (cfg g) * config_ny (cfg g)"
    "enforce_T g T1 = Inr T3"
    "solve_Psi ext g T3 = Inr P1"
    "length P1 = config_nx (cfg g) * config_ny (cfg g)"
    "enforce_Psi g P1 = Inr P3"
    "g' = g\<lparr>Tnplus1 := T3, Psinplus1 := P3\<rparr>"
proof -
  obtain C rhsC where c: "constructC ext (ops g) (Psinplus1 g) (sqrtRa g) = (C, rhsC)"
    by (cases "constructC ext (ops g) (Psinplus1 g) (sqrtRa g)")
  from assms c obtain T1 T3 P1 P3 where
    "solve_T ext g C rhsC (Tnplus1 g) = Inr T1"
    "length T1 = config_nx (cfg g) * config_ny (cfg g)"
    "enforce_T g T1 = Inr T3"
    "solve_Psi ext g T3 = Inr P1"
    "length P1 = config_nx (cfg g) * config_ny (cfg g)"
    "enforce_Psi g P1 = Inr P3"
    "g' = g\<lparr>Tnplus1 := T3, Psinplus1 := P3\<rparr>"
    by (auto simp: step_def Let_def bind_err_Inr set_shape_Inr)
  with c show thesis by (rule that)
qed

lemma same_env_refl: "same_env g g"
  by (simp add: same_env_def)

lemma same_envI: "g' = g\<lparr>Tnplus1 := T, Psinplus1 := P\<rparr> \<Longrightarrow> same_env g g'"
  by (simp add: same_env_def)

lemma same_envD: "same_env g g' \<Longrightarrow> \<exists>T P. g' = g\<lparr>Tnplus1 := T, Psinplus1 := P\<rparr>"
  unfolding same_env_def by blast

lemma same_env_trans:
  assumes "same_env g g'" "same_env g' g''"
  shows "same_env g g''"
proof -
  obtain T P where a: "g' = g\<lparr>Tnplus1 := T, Psinplus1 := P\<rparr>"
    using same_envD [OF assms(1)] by blast
  obtain T' P' where b: "g'' = g'\<lparr>Tnplus1 := T', Psinplus1 := P'\<rparr>"
    using same_envD [OF assms(2)] by blast
  have "g'' = g\<lparr>Tnplus1 := T', Psinplus1 := P'\<rparr>"
    unfolding b a by simp
  then show ?thesis by (rule same_envI)
qed

lemma same_env_fields:
  assumes "same_env g g'"
  shows "cfg g' = cfg g" "useSuperLUFactorizationEq1 g' = useSuperLUFactorizationEq1 g"
    "useSuperLUFactorizationEq2 g' = useSuperLUFactorizationEq2 g"
    "sqrtRa g' = sqrtRa g" "Tbottom g' = Tbottom g" "Ttop g' = Ttop g"
    "ops g' = ops g" "psiElim g' = psiElim g" "factor1 g' = factor1 g"
proof -
  obtain T P where e: "g' = g\<lparr>Tnplus1 := T, Psinplus1 := P\<rparr>"
    using same_envD [OF assms] by blast
  show "cfg g' = cfg g" "useSuperLUFactorizationEq1 g' = useSuperLUFactorizationEq1 g"
    "useSuperLUFactorizationEq2 g' = useSuperLUFactorizationEq2 g"
    "sqrtRa g' = sqrtRa g" "Tbottom g' = Tbottom g" "Ttop g' = Ttop g"
    "ops g' = ops g" "psiElim g' = psiElim g" "factor1 g' = factor1 g"
    unfolding e by simp_all
qed

lemma step_same_env: "step ext g = Inr g' \<Longrightarrow> same_env g g'"
  by (erule step_cases) (rule same_envI)

lemma time_marching_same_env: "time_marching ext k g = Inr g' \<Longrightarrow> same_env g g'"
proof (induction k arbitrary: g)
  case 0
  then show ?case by (simp add: same_env_refl)
next
  case (Suc k)
  then obtain g1 where "step ext g = Inr g1" "time_marching ext k g1 = Inr g'"
    by (auto simp: bind_err_Inr)
  then show ?case
    using Suc.IH step_same_env same_env_trans by blast
qed

lemma time_marching_snoc:
  "time_marching ext (Suc k) g = bind_err (time_marching ext k g) (step ext)"
proof (induction k arbitrary: g)
  case 0
  show ?case by (cases "step ext g") (simp_all add: bind_err_def)
next
  case (Suc k)
  have "time_marching ext (Suc (Suc k)) g = bind_err (step ext g) (time_marching ext (Suc k))"
    by simp
  also have "\<dots> = bind_err (step ext g) (\<lambda>g1. bind_err (time_marching ext k g1) (step ext))"
    using Suc.IH by presburger
  also have "\<dots> = bind_err (time_marching ext (Suc k) g) (step ext)"
    by (cases "step ext g") (simp_all add: bind_err_def)
  finally show ?case .
qed

lemma time_marching_last:
  assumes "time_marching ext (Suc k) g = Inr g'"
  obtains g1 where "time_marching ext k g = Inr g1" "step ext g1 = Inr g'"
  using assms unfolding time_marching_snoc by (auto simp: bind_err_Inr)

section \<open>What the preparation establishes\<close>

lemma mk_config_Inr:
  assumes "mk_config dt nt ny nx = Inr c"
  shows "ny \<noteq> 1"
    "c = \<lparr>config_dt = dt, config_nt = nt, config_ny = ny, config_nx = nx,
          config_dy = 1 / (real ny - 1), config_dx = 2 / (real ny - 1)\<rparr>"
  using assms by (auto simp: mk_config_def py_div_def bind_err_Inr split: if_splits)

lemma mk_psiElim_Inr:
  assumes "mk_psiElim ny nx = Inr E"
  shows "0 < ny"
proof (rule ccontr)
  assume "\<not> 0 < ny"
  then have "ny = 0" by simp
  then have "mk_psiElim ny nx = Inl ValueError"
    by (simp add: mk_psiElim_def psiElim_entries_def bind_err_def slice_fill_def)
  with assms show False by simp
qed

lemma prepare_cases:
  assumes "prepare ext st = Inr g"
  obtains c E where
    "mk_config (set_dt st) (set_nt st) (set_ny st) (set_nx st) = Inr c"
    "mk_psiElim (set_ny st) (set_nx st) = Inr E"
    "cfg g = c" "psiElim g = E"
    "useSuperLUFactorizationEq1 g = set_useSuperLUFactorizationEq1 st"
    "useSuperLUFactorizationEq2 g = set_useSuperLUFactorizationEq2 st"
    "sqrtRa g = set_sqrtRa st" "Tbottom g = set_Tbottom st" "Ttop g = set_Ttop st"
    "ops g = build_operators ext c [set_Tbottom st, set_Ttop st] [0, 0]"
    "Tnplus1 g = startT (set_Tbottom st) (set_Ttop st) (set_ny st) (set_nx st)"
    "Psinplus1 g = startPsi (set_ny st) (set_nx st)"
    "set_useSuperLUFactorizationEq1 st \<Longrightarrow>
       \<exists>f. factorized ext (dlOpPsi (ops g)) = Inr f \<and> factor1 g = Some f"
proof -
  from assms obtain c where c: "mk_config (set_dt st) (set_nt st) (set_ny st) (set_nx st) = Inr c"
    by (auto simp: prepare_def bind_err_Inr)
  have cn: "config_ny c = set_ny st" "config_nx c = set_nx st"
    using mk_config_Inr(2) [OF c] by simp_all
  from assms c cn obtain E f1 where
    E: "mk_psiElim (set_ny st) (set_nx st) = Inr E"
    and f1: "(if set_useSuperLUFactorizationEq1 st
               then bind_err (factorized ext (dlOpPsi (build_operators ext c [set_Tbottom st, set_Ttop st] [0, 0])))
                      (\<lambda>f. Inr (Some f))
               else Inr None) = Inr f1"
    and g: "g = \<lparr>cfg = c,
          useSuperLUFactorizationEq1 = set_useSuperLUFactorizationEq1 st,
          useSuperLUFactorizationEq2 = set_useSuperLUFactorizationEq2 st,
          sqrtRa = set_sqrtRa st, Tbottom = set_Tbottom st, Ttop = set_Ttop st,
          ops = build_operators ext c [set_Tbottom st, set_Ttop st] [0, 0],
          psiElim = E, factor1 = f1,
          Tnplus1 = startT (set_Tbottom st) (set_Ttop st) (set_ny st) (set_nx st),
          Psinplus1 = startPsi (set_ny st) (set_nx st)\<rparr>"
    by (auto simp: prepare_def bind_err_Inr Let_def)
  have f: "set_useSuperLUFactorizationEq1 st \<Longrightarrow>
       \<exists>f. factorized ext (dlOpPsi (build_operators ext c [set_Tbottom st, set_Ttop st] [0, 0])) = Inr f
           \<and> f1 = Some f"
    using f1 by (auto simp: bind_err_Inr)
  show thesis
    by (rule that [OF c E]) (simp_all add: g f)
qed

lemma prepare_ny:
  assumes "prepare ext st = Inr g"
  shows "2 \<le> config_ny (cfg g)" "config_ny (cfg g) = set_ny st" "config_nx (cfg g) = set_nx st"
proof -
  from assms obtain c E where
    c: "mk_config (set_dt st) (set_nt st) (set_ny st) (set_nx st) = Inr c"
    and E: "mk_psiElim (set_ny st) (set_nx st) = Inr E" and g: "cfg g = c"
    by (rule prepare_cases)
  show "config_ny (cfg g) = set_ny st" "config_nx (cfg g) = set_nx st"
    using mk_config_Inr(2) [OF c] g by simp_all
  moreover have "set_ny st \<noteq> 1" using mk_config_Inr(1) [OF c] .
  moreover have "0 < set_ny st" using mk_psiElim_Inr [OF E] .
  ultimately show "2 \<le> config_ny (cfg g)" by simp
qed

end
